theory Spec2Isabelle
  imports Main
begin

section \<open>JavaScript values\<close>

text \<open>
  The plugin reads its input from a YAML manifest and from JSON answers of remote
  services, and tests it dynamically (\<^verbatim>\<open>typeof\<close>, truthiness, \<^verbatim>\<open>_.isArray\<close>). Such
  data is a \<open>jsval\<close>. An object is the list of its properties in insertion order.
  Numbers are only tested for truthiness by this program; the integer-valued ones are
  modelled.
\<close>

datatype jsval =
    JUndefined
  | JNull
  | JBool bool
  | JNum int
  | JStr string
  | JArr "jsval list"
  | JObj "(string \<times> jsval) list"

fun truthy :: "jsval \<Rightarrow> bool" where
  "truthy JUndefined = False"
| "truthy JNull = False"
| "truthy (JBool b) = b"
| "truthy (JNum n) = (n \<noteq> 0)"
| "truthy (JStr s) = (s \<noteq> [])"
| "truthy (JArr xs) = True"
| "truthy (JObj kvs) = True"

text \<open>\<^verbatim>\<open>obj.k\<close> on an object: the value of the property, \<^verbatim>\<open>undefined\<close> when absent.\<close>

fun obj_get :: "(string \<times> jsval) list \<Rightarrow> string \<Rightarrow> jsval" where
  "obj_get [] k = JUndefined"
| "obj_get (p # kvs) k = (if fst p = k then snd p else obj_get kvs k)"

text \<open>\<^verbatim>\<open>obj.k = v\<close>: an existing property keeps its place, a new one goes last.\<close>

fun obj_set :: "(string \<times> jsval) list \<Rightarrow> string \<Rightarrow> jsval \<Rightarrow> (string \<times> jsval) list" where
  "obj_set [] k v = [(k, v)]"
| "obj_set (p # kvs) k v = (if fst p = k then (k, v) # kvs else p # obj_set kvs k v)"

text \<open>
  \<^verbatim>\<open>xs.indexOf(x)\<close>: the first position holding a value strictly equal to \<open>x\<close>, or
  \<open>-1\<close>. The program only searches for strings, for which strict equality is equality
  of values.
\<close>

fun indexOf :: "'a list \<Rightarrow> 'a \<Rightarrow> int" where
  "indexOf [] x = - 1"
| "indexOf (y # ys) x =
     (if y = x then 0 else (let i = indexOf ys x in if i = - 1 then - 1 else i + 1))"

datatype error =
    RequestError string
  | ProviderError string
  | SyntaxError
  | TypeError

text \<open>\<^verbatim>\<open>xs.filter(p)\<close> with a callback that may throw: the first throw ends the call.\<close>

fun filterE :: "('a \<Rightarrow> error + bool) \<Rightarrow> 'a list \<Rightarrow> error + 'a list" where
  "filterE p [] = Inr []"
| "filterE p (x # xs) =
     (case p x of
        Inl e \<Rightarrow> Inl e
      | Inr b \<Rightarrow>
          (case filterE p xs of
             Inl e \<Rightarrow> Inl e
           | Inr ys \<Rightarrow> Inr (if b then x # ys else ys)))"

subsection \<open>String matching\<close>

text \<open>
  \<^verbatim>\<open>s.match(p)\<close> compiles \<open>p\<close> to a regular expression and searches \<open>s\<close> for it. For a
  pattern without regular-expression metacharacters this is a substring search, which
  is what \<open>str_includes\<close> computes.
\<close>

fun starts_with :: "string \<Rightarrow> string \<Rightarrow> bool" where
  "starts_with [] s = True"
| "starts_with (c # p) [] = False"
| "starts_with (c # p) (d # s) = (c = d \<and> starts_with p s)"

fun str_includes :: "string \<Rightarrow> string \<Rightarrow> bool" where
  "str_includes p [] = (p = [])"
| "str_includes p (c # s) = (starts_with p (c # s) \<or> str_includes p s)"

definition metachars :: string where
  "metachars = CHR 0x5C # ''^$.|?*+()[]{}''"

definition regex_literal :: "string \<Rightarrow> bool" where
  "regex_literal p = list_all (\<lambda>c. c \<notin> set metachars) p"

section \<open>Collaborators outside the repository\<close>

text \<open>
  What the plugin calls but does not contain: the regular-expression engine on patterns
  that are not literal (an error stands for the \<^verbatim>\<open>SyntaxError\<close> of a pattern that does
  not compile), the HTTP client (\<^verbatim>\<open>request\<close>: the body of the answer, or the error the
  call ends with), \<^verbatim>\<open>JSON.parse\<close> (\<open>None\<close> when it throws) and \<^verbatim>\<open>semver.lt\<close>.
\<close>

record externals =
  regexp :: "jsval \<Rightarrow> string \<Rightarrow> error + bool"
  http_get :: "string \<Rightarrow> error + string"
  JSON_parse :: "string \<Rightarrow> jsval option"
  semver_lt :: "string \<Rightarrow> string \<Rightarrow> bool"

text \<open>
  \<^verbatim>\<open>s.match(p)\<close> as a truth value. An \<^verbatim>\<open>undefined\<close> pattern is the empty regular
  expression, which matches every string.
\<close>

definition String_match :: "externals \<Rightarrow> string \<Rightarrow> jsval \<Rightarrow> error + bool" where
  "String_match X s p =
     (case p of
        JUndefined \<Rightarrow> Inr True
      | JStr t \<Rightarrow> if regex_literal t then Inr (str_includes t s) else regexp X p s
      | _ \<Rightarrow> regexp X p s)"

subsection \<open>lodash \<^verbatim>\<open>_.get\<close>\<close>

definition is_digit :: "char \<Rightarrow> bool" where
  "is_digit c = (c \<in> set ''0123456789'')"

definition array_index :: "string \<Rightarrow> nat option" where
  "array_index k =
     (if k = ''0'' then Some 0
      else if k \<noteq> [] \<and> list_all is_digit k \<and> hd k \<noteq> CHR ''0''
      then Some (foldl (\<lambda>n c. 10 * n + (of_char c - 48)) 0 k)
      else None)"

text \<open>
  \<^verbatim>\<open>v[k]\<close> for a \<open>v\<close> that is neither \<^verbatim>\<open>null\<close> nor \<^verbatim>\<open>undefined\<close>, and a key that does
  not name a built-in member (the program reads none).
\<close>

definition js_prop :: "jsval \<Rightarrow> string \<Rightarrow> jsval" where
  "js_prop v k =
     (case v of
        JObj kvs \<Rightarrow> obj_get kvs k
      | JArr xs \<Rightarrow>
          (case array_index k of
             None \<Rightarrow> JUndefined
           | Some i \<Rightarrow> if i < length xs then xs ! i else JUndefined)
      | JStr s \<Rightarrow>
          (case array_index k of
             None \<Rightarrow> JUndefined
           | Some i \<Rightarrow> if i < length s then JStr [s ! i] else JUndefined)
      | _ \<Rightarrow> JUndefined)"

fun baseGet :: "jsval \<Rightarrow> string list \<Rightarrow> jsval" where
  "baseGet v [] = v"
| "baseGet v (k # ks) =
     (if v = JUndefined \<or> v = JNull then JUndefined else baseGet (js_prop v k) ks)"

text \<open>
  \<^verbatim>\<open>_.get(object, "Layers[0].LatestMatchingVersion.LayerVersionArn")\<close>. lodash takes the
  whole path string as one key when the object has a property of that name, and walks
  the parsed path otherwise.
\<close>

definition LayerVersionArn_path :: string where
  "LayerVersionArn_path = ''Layers[0].LatestMatchingVersion.LayerVersionArn''"

definition get_LayerVersionArn :: "jsval \<Rightarrow> jsval" where
  "get_LayerVersionArn object =
     (case object of
        JObj kvs \<Rightarrow>
          if LayerVersionArn_path \<in> set (map fst kvs) then obj_get kvs LayerVersionArn_path
          else baseGet object [''Layers'', ''0'', ''LatestMatchingVersion'', ''LayerVersionArn'']
      | _ \<Rightarrow> baseGet object [''Layers'', ''0'', ''LatestMatchingVersion'', ''LayerVersionArn''])"

section \<open>The manifest\<close>

text \<open>\<^verbatim>\<open>service.custom.newRelic\<close>; a field the manifest does not set is \<^verbatim>\<open>undefined\<close>.\<close>

record newRelic =
  accountId :: jsval
  trustedAccountKey :: jsval
  layerArn :: jsval
  exclude :: jsval
  prepend :: jsval
  debug :: jsval
  serverlessModeEnabled :: jsval

text \<open>The \<^verbatim>\<open>package\<close> object of a function: \<open>None\<close> is an absent \<^verbatim>\<open>exclude\<close>.\<close>

record pkg =
  pkg_exclude :: "jsval list option"

text \<open>A function definition; \<open>None\<close> and \<open>JUndefined\<close> are absent properties.\<close>

record funcDef =
  name :: "string option"
  environment :: "(string \<times> jsval) list option"
  handler :: jsval
  runtime :: jsval
  layers :: "jsval list option"
  package :: "pkg option"

text \<open>
  What the plugin reads of the \<^verbatim>\<open>serverless\<close> object: \<^verbatim>\<open>getVersion()\<close>,
  \<^verbatim>\<open>service.plugins\<close> (empty when absent), \<^verbatim>\<open>service.provider.region\<close> (a string when
  present), \<^verbatim>\<open>service.provider.runtime\<close>, \<^verbatim>\<open>enterpriseEnabled\<close>, the configuration, and
  the functions of the service by key, in the order of \<^verbatim>\<open>getAllFunctions()\<close>.
\<close>

record serverless =
  version :: string
  plugins :: "jsval list"
  region :: "string option"
  provider_runtime :: jsval
  enterpriseEnabled :: jsval
  config :: newRelic
  funcs :: "(string \<times> funcDef) list"

text \<open>One constructor for each call of \<^verbatim>\<open>serverless.cli.log\<close> in the source.\<close>

datatype message =
    VersionUnsupported string
  | PluginsList "jsval list"
  | PluginOrderSkipping
  | AddingLayer string
  | NoRegionSkipping
  | NoAccountIdSkipping string
  | UnsupportedRuntimeSkipping jsval
  | ExcludedSkipping string
  | AlreadySpecifiesLayer string
  | ConfiguringLogFilter "string option"
  | RemovingLogFilter string
  | ProviderMessage string

section \<open>Layer ARN resolver\<close>

text \<open>The template \<^verbatim>\<open>`https://${region}.nr-layers.iopipe.com/get-layers?CompatibleRuntime=${runtime}`\<close>\<close>

definition get_layers_url :: "string \<Rightarrow> string \<Rightarrow> string" where
  "get_layers_url rt rg =
     ''https://'' @ rg @ ''.nr-layers.iopipe.com/get-layers?CompatibleRuntime='' @ rt"

definition getLayerArn :: "externals \<Rightarrow> string \<Rightarrow> string \<Rightarrow> error + jsval" where
  "getLayerArn X rt rg =
     (case http_get X (get_layers_url rt rg) of
        Inl e \<Rightarrow> Inl e
      | Inr body \<Rightarrow>
          (case JSON_parse X body of
             None \<Rightarrow> Inl SyntaxError
           | Some awsResp \<Rightarrow> Inr (get_LayerVersionArn awsResp)))"

section \<open>Instrumentation planner\<close>

definition getHandlerWrapper :: "serverless \<Rightarrow> string \<Rightarrow> jsval \<Rightarrow> jsval" where
  "getHandlerWrapper sls rt h =
     (if indexOf [''nodejs8.10'', ''nodejs10.x'', ''nodejs12.x''] rt \<noteq> - 1
         \<or> (rt = ''nodejs10.x'' \<and> truthy (enterpriseEnabled sls))
      then JStr ''newrelic-lambda-wrapper.handler''
      else if str_includes ''python'' rt
      then JStr ''newrelic_lambda_wrapper.handler''
      else h)"

definition updatePackageExcludes :: "string \<Rightarrow> pkg \<Rightarrow> pkg" where
  "updatePackageExcludes rt pkg =
     (if \<not> str_includes ''nodejs'' rt then pkg
      else
        (let excl = (case pkg_exclude pkg of None \<Rightarrow> [] | Some xs \<Rightarrow> xs)
         in pkg\<lparr>pkg_exclude := Some (excl @ [JStr ''!newrelic-lambda-wrapper.handler''])\<rparr>))"

definition supported_runtimes :: "string list" where
  "supported_runtimes =
     [''nodejs12.x'', ''nodejs10.x'', ''nodejs8.10'', ''python2.7'', ''python3.6'', ''python3.7'']"

text \<open>
  How a call of \<open>addLayer\<close> ends: at one of its four early returns, by a rejection
  before anything is written, or at the end of the function.
\<close>

datatype outcome = Skipped message | Failed error | Instrumented

text \<open>\<^verbatim>\<open>env[k] = env[k] ? env[k] : d\<close>\<close>

definition keep_or :: "(string \<times> jsval) list \<Rightarrow> string \<Rightarrow> jsval \<Rightarrow> (string \<times> jsval) list" where
  "keep_or env k d = obj_set env k (if truthy (obj_get env k) then obj_get env k else d)"

text \<open>
  Lines 178 to 212 of \<open>addLayer\<close>: the assignments to the environment, in the order of
  the source. The last one tests the string literal \<^verbatim>\<open>"true"\<close>.
\<close>

definition set_environment :: "serverless \<Rightarrow> string \<Rightarrow> funcDef \<Rightarrow>
    (string \<times> jsval) list \<Rightarrow> (string \<times> jsval) list" where
  "set_environment sls funcName funcDef env =
     (let e1 = obj_set env ''NEW_RELIC_LAMBDA_HANDLER'' (handler funcDef);
          e2 = keep_or e1 ''NEW_RELIC_LOG'' (JStr ''stdout'');
          e3 = keep_or e2 ''NEW_RELIC_LOG_LEVEL''
                 (if truthy (debug (config sls)) then JStr ''debug'' else JStr ''info'');
          e4 = keep_or e3 ''NEW_RELIC_NO_CONFIG_FILE'' (JStr ''true'');
          e5 = keep_or e4 ''NEW_RELIC_APP_NAME''
                 (case name funcDef of
                    None \<Rightarrow> JStr funcName
                  | Some n \<Rightarrow> if n \<noteq> [] then JStr n else JStr funcName);
          e6 = keep_or e5 ''NEW_RELIC_ACCOUNT_ID'' (accountId (config sls));
          e7 = keep_or e6 ''NEW_RELIC_TRUSTED_ACCOUNT_KEY''
                 (if truthy (obj_get e6 ''NEW_RELIC_ACCOUNT_ID'')
                  then obj_get e6 ''NEW_RELIC_ACCOUNT_ID''
                  else trustedAccountKey (config sls))
      in obj_set e7 ''NEW_RELIC_SERVERLESS_MODE_ENABLED''
           (if truthy (JStr ''true'')
            then obj_get e7 ''NEW_RELIC_SERVERLESS_MODE_ENABLED''
            else if truthy (JStr ''true'') then serverlessModeEnabled (config sls)
            else JStr ''false''))"

text \<open>
  Lines 160 to 217 of \<open>addLayer\<close>: the writes, once the layer ARN is known. The callback
  of \<^verbatim>\<open>layers.filter\<close> can throw; nothing has been written then.
\<close>

definition attach :: "externals \<Rightarrow> serverless \<Rightarrow> string \<Rightarrow> funcDef \<Rightarrow> string \<Rightarrow>
    (string \<times> jsval) list \<Rightarrow> jsval list \<Rightarrow> pkg \<Rightarrow> jsval \<Rightarrow> outcome \<times> message list \<times> funcDef" where
  "attach X sls funcName funcDef rt env lys pkg arn =
     (case filterE (\<lambda>layer. case layer of JStr s \<Rightarrow> String_match X s arn | _ \<Rightarrow> Inr False) lys of
        Inl e \<Rightarrow> (Failed e, [], funcDef)
      | Inr newRelicLayers \<Rightarrow>
          (let (lg, fd) =
                 (if newRelicLayers \<noteq> [] then ([AlreadySpecifiesLayer funcName], funcDef)
                  else ([], funcDef\<lparr>layers :=
                          Some (if prepend (config sls) = JBool True then arn # lys
                                else lys @ [arn])\<rparr>))
           in (Instrumented, lg,
               fd\<lparr>environment := Some (set_environment sls funcName funcDef env),
                  handler := getHandlerWrapper sls rt (handler funcDef),
                  package := Some (updatePackageExcludes rt pkg)\<rparr>)))"

text \<open>\<^verbatim>\<open>config.layerArn ? config.layerArn : await getLayerArn(runtime, region)\<close>\<close>

definition resolve_layerArn :: "externals \<Rightarrow> serverless \<Rightarrow> string \<Rightarrow> string \<Rightarrow> error + jsval" where
  "resolve_layerArn X sls rt rg =
     (if truthy (layerArn (config sls)) then Inr (layerArn (config sls))
      else getLayerArn X rt rg)"

text \<open>The runtime after the destructuring default \<^verbatim>\<open>runtime = provider.runtime\<close>.\<close>

definition effective_runtime :: "serverless \<Rightarrow> funcDef \<Rightarrow> jsval" where
  "effective_runtime sls funcDef =
     (if runtime funcDef = JUndefined then provider_runtime sls else runtime funcDef)"

text \<open>
  \<open>addLayer\<close> mutates \<^verbatim>\<open>funcDef\<close> in place and returns nothing; the model returns how the
  call ended, the messages it logged, and the definition afterwards. Every early return
  comes before the first write, so it gives the definition back as it was.
\<close>

definition addLayer :: "externals \<Rightarrow> serverless \<Rightarrow> string \<Rightarrow> funcDef \<Rightarrow>
    outcome \<times> message list \<times> funcDef" where
  "addLayer X sls funcName funcDef =
     (case region sls of
        None \<Rightarrow> (Skipped NoRegionSkipping, [AddingLayer funcName, NoRegionSkipping], funcDef)
      | Some rg \<Rightarrow>
          if rg = []
          then (Skipped NoRegionSkipping, [AddingLayer funcName, NoRegionSkipping], funcDef)
          else
            (let env = (case environment funcDef of None \<Rightarrow> [] | Some e \<Rightarrow> e);
                 lys = (case layers funcDef of None \<Rightarrow> [] | Some l \<Rightarrow> l);
                 pkg = (case package funcDef of None \<Rightarrow> \<lparr>pkg_exclude = None\<rparr> | Some p \<Rightarrow> p)
             in if \<not> truthy (accountId (config sls))
                   \<and> \<not> truthy (obj_get env ''NEW_RELIC_ACCOUNT_ID'')
                then (Skipped (NoAccountIdSkipping funcName),
                      [AddingLayer funcName, NoAccountIdSkipping funcName], funcDef)
                else
                  (case effective_runtime sls funcDef of
                     JStr r \<Rightarrow>
                       if indexOf supported_runtimes r = - 1
                       then (Skipped (UnsupportedRuntimeSkipping (JStr r)),
                             [AddingLayer funcName, UnsupportedRuntimeSkipping (JStr r)], funcDef)
                       else if (case exclude (config sls) of
                                  JUndefined \<Rightarrow> False
                                | JArr xs \<Rightarrow> indexOf xs (JStr funcName) \<noteq> - 1
                                | _ \<Rightarrow> False)
                       then (Skipped (ExcludedSkipping funcName),
                             [AddingLayer funcName, ExcludedSkipping funcName], funcDef)
                       else
                         (case resolve_layerArn X sls r rg of
                            Inl e \<Rightarrow> (Failed e, [AddingLayer funcName], funcDef)
                          | Inr arn \<Rightarrow>
                              (case attach X sls funcName funcDef r env lys pkg arn of
                                 (out, lg, fd) \<Rightarrow> (out, AddingLayer funcName # lg, fd)))
                   | v \<Rightarrow> (Skipped (UnsupportedRuntimeSkipping v),
                           [AddingLayer funcName, UnsupportedRuntimeSkipping v], funcDef))))"

section \<open>The packaging driver\<close>

text \<open>
  The getter \<^verbatim>\<open>functions\<close> merges one object for each function with
  \<^verbatim>\<open>Object.assign.apply(null, ...)\<close>, which throws when the service has no function.
\<close>

definition functions_getter :: "serverless \<Rightarrow> error + (string \<times> funcDef) list" where
  "functions_getter sls = (if funcs sls = [] then Inl TypeError else Inr (funcs sls))"

text \<open>
  \<open>run\<close>: the rejection of its promise if any, the messages logged, and the service
  afterwards. A rejection inside one of the \<^verbatim>\<open>forEach\<close> callbacks is not observed by
  \<open>run\<close>. The messages of the functions are given in the order of the functions, which
  is the order of the source when \<^verbatim>\<open>config.layerArn\<close> is set (no call then waits).
\<close>

definition run :: "externals \<Rightarrow> serverless \<Rightarrow> error option \<times> message list \<times> serverless" where
  "run X sls =
     (if semver_lt X (version sls) ''1.34.0''
      then (None, [VersionUnsupported (version sls)], sls)
      else if indexOf (plugins sls) (JStr ''serverless-webpack'')
                > indexOf (plugins sls) (JStr ''serverless-newrelic-layers'')
      then (None, [PluginsList (plugins sls), PluginOrderSkipping], sls)
      else
        (case functions_getter sls of
           Inl e \<Rightarrow> (Some e, [PluginsList (plugins sls)], sls)
         | Inr fs \<Rightarrow>
             (let rs = map (\<lambda>(funcName, funcDef). (funcName, addLayer X sls funcName funcDef)) fs
              in (None,
                  PluginsList (plugins sls) # concat (map (\<lambda>(funcName, r). fst (snd r)) rs),
                  sls\<lparr>funcs := map (\<lambda>(funcName, r). (funcName, snd (snd r))) rs\<rparr>))))"

section \<open>Log filter reconciler\<close>

text \<open>
  The requests the plugin sends through \<^verbatim>\<open>awsProvider.request\<close>, with their parameters:
  \<^verbatim>\<open>FunctionName\<close>; \<^verbatim>\<open>logGroupName\<close>; \<^verbatim>\<open>destinationArn\<close>, \<^verbatim>\<open>filterName\<close>,
  \<^verbatim>\<open>filterPattern\<close>, \<^verbatim>\<open>logGroupName\<close>; \<^verbatim>\<open>filterName\<close>, \<^verbatim>\<open>logGroupName\<close>.
\<close>

datatype aws_request =
    GetFunction "string option"
  | DescribeSubscriptionFilters string
  | PutSubscriptionFilter jsval string string string
  | DeleteSubscriptionFilter string string

text \<open>
  The provider is a black box: it answers a request with a value or with an error,
  and the answer is a function of the request. The code reads the answer to a describe
  request as the array of the filters of the log group. \<open>ProviderError m\<close> is an error
  object whose \<^verbatim>\<open>providerError.message\<close> is \<open>m\<close>; the other errors have no
  \<^verbatim>\<open>providerError\<close>.
\<close>

type_synonym awsProvider = "aws_request \<Rightarrow> error + jsval"

datatype event = Issued aws_request | Settled aws_request | Logged message

text \<open>
  An asynchronous call, seen from outside: the events during the call itself, before it
  returns its promise (\<open>at_call\<close>); the events it causes after it has returned, in order
  (\<open>afterwards\<close>); and how its promise settles. JavaScript runs a callback to completion:
  no answer is delivered while the code that sent the request is still running, so the
  \<open>Settled\<close> event of a request is never among the \<open>at_call\<close> events of the call that
  issued it.
\<close>

record promise =
  at_call :: "event list"
  afterwards :: "event list"
  result :: "error + jsval"

definition events :: "promise \<Rightarrow> event list" where
  "events p = at_call p @ afterwards p"

definition request :: "awsProvider \<Rightarrow> aws_request \<Rightarrow> promise" where
  "request P rq = \<lparr>at_call = [Issued rq], afterwards = [Settled rq], result = P rq\<rparr>"

definition rejected :: "error \<Rightarrow> promise" where
  "rejected e = \<lparr>at_call = [], afterwards = [], result = Inl e\<rparr>"

text \<open>\<^verbatim>\<open>p.then(f)\<close>: \<open>f\<close> runs once \<open>p\<close> has settled with a value.\<close>

definition then_promise :: "promise \<Rightarrow> (jsval \<Rightarrow> promise) \<Rightarrow> promise" where
  "then_promise p f =
     (case result p of
        Inl e \<Rightarrow> p
      | Inr v \<Rightarrow>
          (let q = f v
           in \<lparr>at_call = at_call p,
               afterwards = afterwards p @ at_call q @ afterwards q,
               result = result q\<rparr>))"

text \<open>
  \<^verbatim>\<open>p.catch(err => this.serverless.cli.log(err.providerError.message))\<close>: for an error
  without \<^verbatim>\<open>providerError\<close> the handler itself throws a \<^verbatim>\<open>TypeError\<close>.
\<close>

definition catch_log :: "promise \<Rightarrow> promise" where
  "catch_log p =
     (case result p of
        Inr v \<Rightarrow> p
      | Inl (ProviderError m) \<Rightarrow>
          p\<lparr>afterwards := afterwards p @ [Logged (ProviderMessage m)], result := Inr JUndefined\<rparr>
      | Inl e \<Rightarrow> p\<lparr>result := Inl TypeError\<rparr>)"

text \<open>\<^verbatim>\<open>v.k\<close>, which throws on \<^verbatim>\<open>null\<close> and \<^verbatim>\<open>undefined\<close>.\<close>

definition read_prop :: "jsval \<Rightarrow> string \<Rightarrow> error + jsval" where
  "read_prop v k = (if v = JUndefined \<or> v = JNull then Inl TypeError else Inr (js_prop v k))"

text \<open>The template \<^verbatim>\<open>`/aws/lambda/${funcName}`\<close>\<close>

definition logGroupName :: "string option \<Rightarrow> string" where
  "logGroupName funcName =
     ''/aws/lambda/'' @ (case funcName of None \<Rightarrow> ''undefined'' | Some n \<Rightarrow> n)"

definition removeSubscriptionFilter :: "awsProvider \<Rightarrow> string option \<Rightarrow> promise" where
  "removeSubscriptionFilter P funcName =
     catch_log (request P
       (DeleteSubscriptionFilter ''NewRelicLogStreaming'' (logGroupName funcName)))"

definition addSubscriptionFilter :: "awsProvider \<Rightarrow> string option \<Rightarrow> jsval \<Rightarrow> promise" where
  "addSubscriptionFilter P funcName destinationArn =
     catch_log (request P
       (PutSubscriptionFilter destinationArn ''NewRelicLogStreaming'' ''NR_LAMBDA_MONITORING''
          (logGroupName funcName)))"

text \<open>
  The callback of \<^verbatim>\<open>.then\<close> in \<open>describeSubscriptionFilters\<close>. With existing filters the
  two chained \<^verbatim>\<open>map\<close> calls run one after the other inside the callback: the first calls
  \<open>removeSubscriptionFilter\<close> for each stale filter and yields the promises, the second
  calls \<open>addSubscriptionFilter\<close> for each of these promises without waiting for it. The
  callback then returns \<^verbatim>\<open>undefined\<close>. The answers to the requests arrive afterwards;
  they are listed in the order the requests were issued.
\<close>

definition on_described :: "awsProvider \<Rightarrow> string option \<Rightarrow> jsval \<Rightarrow> jsval \<Rightarrow> promise" where
  "on_described P funcName destinationArn res =
     (case res of
        JArr fs \<Rightarrow>
          (case filterE (\<lambda>f. case read_prop f ''filterName'' of
                               Inl e \<Rightarrow> Inl e
                             | Inr n \<Rightarrow> Inr (n = JStr ''NewRelicLogStreaming'')) fs of
             Inl e \<Rightarrow> rejected e
           | Inr existingFilters \<Rightarrow>
               if existingFilters \<noteq> []
               then
                 (case filterE (\<lambda>f. case read_prop f ''filterPattern'' of
                                      Inl e \<Rightarrow> Inl e
                                    | Inr pat \<Rightarrow> Inr (pat \<noteq> JStr ''NR_LAMBDA_MONITORING''))
                         existingFilters of
                    Inl e \<Rightarrow> rejected e
                  | Inr stale \<Rightarrow>
                      (let removes = map (\<lambda>f. removeSubscriptionFilter P funcName) stale;
                           adds = map (\<lambda>r. addSubscriptionFilter P funcName destinationArn) removes
                       in \<lparr>at_call = concat (map at_call removes) @ concat (map at_call adds),
                           afterwards =
                             concat (map afterwards removes) @ concat (map afterwards adds),
                           result = Inr JUndefined\<rparr>))
               else addSubscriptionFilter P funcName destinationArn)
      | _ \<Rightarrow> rejected TypeError)"

definition describeSubscriptionFilters :: "awsProvider \<Rightarrow> string option \<Rightarrow> jsval \<Rightarrow> promise" where
  "describeSubscriptionFilters P funcName destinationArn =
     catch_log
       (then_promise (request P (DescribeSubscriptionFilters (logGroupName funcName)))
          (on_described P funcName destinationArn))"

definition getDestinationArn :: "awsProvider \<Rightarrow> string option \<Rightarrow> promise" where
  "getDestinationArn P funcName =
     catch_log
       (then_promise (request P (GetFunction (Some ''newrelic-log-ingestion'')))
          (\<lambda>res. case read_prop res ''Configuration'' of
                    Inl e \<Rightarrow> rejected e
                  | Inr c \<Rightarrow>
                      (case read_prop c ''FunctionArn'' of
                         Inl e \<Rightarrow> rejected e
                       | Inr destinationArn \<Rightarrow>
                           describeSubscriptionFilters P funcName destinationArn)))"

definition ensureLogStreamFilter :: "awsProvider \<Rightarrow> string option \<Rightarrow> promise" where
  "ensureLogStreamFilter P funcName =
     catch_log
       (then_promise (request P (GetFunction funcName)) (\<lambda>res. getDestinationArn P funcName))"

section \<open>The deploy and remove drivers\<close>

text \<open>
  Both drivers start one asynchronous callback for each function and wait for none of
  them. The model gives, for each function key, what its callback does; the callbacks
  of different functions interleave as the answers arrive.
\<close>

definition idle :: promise where
  "idle = \<lparr>at_call = [], afterwards = [], result = Inr JUndefined\<rparr>"

definition logging_first :: "message \<Rightarrow> promise \<Rightarrow> promise" where
  "logging_first m p = p\<lparr>at_call := Logged m # at_call p\<rparr>"

definition addLogStreamFilters :: "awsProvider \<Rightarrow> serverless \<Rightarrow> error + (string \<times> promise) list" where
  "addLogStreamFilters P sls =
     (case functions_getter sls of
        Inl e \<Rightarrow> Inl e
      | Inr fs \<Rightarrow>
          Inr (map (\<lambda>(funcName, funcDef).
                 (funcName,
                  if (case exclude (config sls) of
                        JArr xs \<Rightarrow> indexOf xs (JStr funcName) \<noteq> - 1
                      | _ \<Rightarrow> False)
                  then idle
                  else logging_first (ConfiguringLogFilter (name funcDef))
                         (ensureLogStreamFilter P (name funcDef)))) fs))"

definition removeLogStreamFilters :: "awsProvider \<Rightarrow> serverless \<Rightarrow> error + (string \<times> promise) list" where
  "removeLogStreamFilters P sls =
     (case functions_getter sls of
        Inl e \<Rightarrow> Inl e
      | Inr fs \<Rightarrow>
          Inr (map (\<lambda>(funcName, funcDef).
                 (funcName,
                  logging_first (RemovingLogFilter funcName)
                    (removeSubscriptionFilter P (name funcDef)))) fs))"

section \<open>Observations and sample inputs\<close>

text \<open>The value of an environment variable of a function, \<^verbatim>\<open>undefined\<close> when absent.\<close>

definition env_value :: "funcDef \<Rightarrow> string \<Rightarrow> jsval" where
  "env_value funcDef k = obj_get (case environment funcDef of None \<Rightarrow> [] | Some e \<Rightarrow> e) k"

text \<open>The packaging exclude list of a function, empty when absent.\<close>

definition excludes :: "funcDef \<Rightarrow> jsval list" where
  "excludes funcDef =
     (case package funcDef of
        None \<Rightarrow> []
      | Some p \<Rightarrow> (case pkg_exclude p of None \<Rightarrow> [] | Some xs \<Rightarrow> xs))"

text \<open>The requests issued in a trace, in order.\<close>

fun issued :: "event list \<Rightarrow> aws_request list" where
  "issued [] = []"
| "issued (Issued rq # es) = rq # issued es"
| "issued (e # es) = issued es"

text \<open>A machine without network; every pattern that is not literal is rejected.\<close>

definition offline :: externals where
  "offline =
     \<lparr>regexp = (\<lambda>p s. Inl SyntaxError),
      http_get = (\<lambda>url. Inl (RequestError ''ENOTFOUND'')),
      JSON_parse = (\<lambda>body. None),
      semver_lt = (\<lambda>a b. False)\<rparr>"


definition sample_config :: newRelic where
  "sample_config =
     \<lparr>accountId = JStr ''12345'',
      trustedAccountKey = JUndefined,
      layerArn = JStr ''arn:aws:lambda:us-east-1:554407330061:layer:MainlandLayer:9'',
      exclude = JArr [JStr ''internal''],
      prepend = JUndefined,
      debug = JUndefined,
      serverlessModeEnabled = JBool True\<rparr>"

definition sample_function :: funcDef where
  "sample_function =
     \<lparr>name = Some ''svc-dev-hello'',
      environment = None,
      handler = JStr ''index.handler'',
      runtime = JStr ''nodejs12.x'',
      layers = None,
      package = None\<rparr>"

definition sample_service :: serverless where
  "sample_service =
     \<lparr>version = ''1.60.0'',
      plugins = [JStr ''serverless-newrelic-layers'', JStr ''serverless-webpack''],
      region = Some ''us-east-1'',
      provider_runtime = JStr ''python3.7'',
      enterpriseEnabled = JUndefined,
      config = sample_config,
      funcs = [(''hello'', sample_function),
               (''internal'', sample_function\<lparr>name := Some ''svc-dev-internal''\<rparr>)]\<rparr>"

text \<open>
  A provider that knows every function, and answers every describe request with the
  given value.
\<close>

definition provider_with :: "jsval \<Rightarrow> awsProvider" where
  "provider_with filters rq =
     (case rq of
        GetFunction n \<Rightarrow>
          Inr (JObj [(''Configuration'', JObj [(''FunctionArn'', JStr ''arn:ingest'')])])
      | DescribeSubscriptionFilters lg \<Rightarrow> Inr filters
      | PutSubscriptionFilter d n pat lg \<Rightarrow> Inr (JObj [])
      | DeleteSubscriptionFilter n lg \<Rightarrow> Inr (JObj []))"

definition stale_filter :: jsval where
  "stale_filter =
     JObj [(''filterName'', JStr ''NewRelicLogStreaming''),
           (''filterPattern'', JStr ''OLD_PATTERN'')]"

text \<open>The sample function after one run of the planner.\<close>

definition sample_instrumented :: funcDef where
  "sample_instrumented =
     \<lparr>name = Some ''svc-dev-hello'',
      environment = Some
        [(''NEW_RELIC_LAMBDA_HANDLER'', JStr ''index.handler''),
         (''NEW_RELIC_LOG'', JStr ''stdout''),
         (''NEW_RELIC_LOG_LEVEL'', JStr ''info''),
         (''NEW_RELIC_NO_CONFIG_FILE'', JStr ''true''),
         (''NEW_RELIC_APP_NAME'', JStr ''svc-dev-hello''),
         (''NEW_RELIC_ACCOUNT_ID'', JStr ''12345''),
         (''NEW_RELIC_TRUSTED_ACCOUNT_KEY'', JStr ''12345''),
         (''NEW_RELIC_SERVERLESS_MODE_ENABLED'', JUndefined)],
      handler = JStr ''newrelic-lambda-wrapper.handler'',
      runtime = JStr ''nodejs12.x'',
      layers = Some [JStr ''arn:aws:lambda:us-east-1:554407330061:layer:MainlandLayer:9''],
      package = Some \<lparr>pkg_exclude = Some [JStr ''!newrelic-lambda-wrapper.handler'']\<rparr>\<rparr>"

text \<open>
  A provider that knows every function except \<^verbatim>\<open>newrelic-log-ingestion\<close>, and whose
  log groups have no subscription filter.
\<close>

definition provider_without_ingestion :: awsProvider where
  "provider_without_ingestion rq =
     (case rq of
        GetFunction n \<Rightarrow>
          if n = Some ''newrelic-log-ingestion''
          then Inl (ProviderError ''Function not found'')
          else Inr (JObj [(''Configuration'', JObj [(''FunctionArn'', JStr ''arn:function'')])])
      | DescribeSubscriptionFilters lg \<Rightarrow> Inr (JArr [])
      | PutSubscriptionFilter d n pat lg \<Rightarrow> Inr (JObj [])
      | DeleteSubscriptionFilter n lg \<Rightarrow> Inr (JObj []))"

text \<open>
  A regular-expression engine for the patterns whose only metacharacter its \<^verbatim>\<open>+\<close>: such
  a pattern its a sequence of characters, each taken once or, when \<^verbatim>\<open>+\<close> follows it, one
  or more times; a \<^verbatim>\<open>+\<close> with nothing to repeat does not compile. A string matches
  when the pattern matches at one of its positions.
\<close>

fun plus_items :: "string \<Rightarrow> (char \<times> bool) list option" where
  "plus_items [] = Some []"
| "plus_items [c] = (if c = CHR ''+'' then None else Some [(c, False)])"
| "plus_items (c # d # s) =
     (if c = CHR ''+'' then None
      else if d = CHR ''+'' then map_option ((#) (c, True)) (plus_items s)
      else map_option ((#) (c, False)) (plus_items (d # s)))"

fun match_here :: "(char \<times> bool) list \<Rightarrow> string \<Rightarrow> bool" where
  "match_here [] s = True"
| "match_here (i # its) [] = False"
| "match_here ((c, False) # its) (d # s) = (c = d \<and> match_here its s)"
| "match_here ((c, True) # its) (d # s) =
     (c = d \<and> (match_here ((c, True) # its) s \<or> match_here its s))"

fun match_anywhere :: "(char \<times> bool) list \<Rightarrow> string \<Rightarrow> bool" where
  "match_anywhere its [] = match_here its []"
| "match_anywhere its (d # s) = (match_here its (d # s) \<or> match_anywhere its s)"

definition plus_regexp :: "jsval \<Rightarrow> string \<Rightarrow> error + bool" where
  "plus_regexp p s =
     (case p of
        JStr t \<Rightarrow>
          if list_all (\<lambda>c. c \<notin> set (remove1 CHR ''+'' metachars)) t
          then (case plus_items t of
                  None \<Rightarrow> Inl SyntaxError
                | Some items \<Rightarrow> Inr (match_anywhere items s))
          else Inl SyntaxError
      | _ \<Rightarrow> Inl SyntaxError)"

text \<open>A machine without network whose engine knows these patterns and rejects the others.\<close>

definition offline_plus :: externals where
  "offline_plus = offline\<lparr>regexp := plus_regexp\<rparr>"

text \<open>
  The sample service with a configured layer ARN that has a \<^verbatim>\<open>+\<close> in its layer name, and
  the sample function with that layer attached.
\<close>

definition plus_service :: serverless where
  "plus_service =
     sample_service\<lparr>config := sample_config\<lparr>layerArn := JStr ''arn:x:layer:a+b:1''\<rparr>\<rparr>"

definition plus_function :: funcDef where
  "plus_function = sample_function\<lparr>layers := Some [JStr ''arn:x:layer:a+b:1'']\<rparr>"


section \<open>Basic facts\<close>

lemma indexOf_lower: "- 1 \<le> indexOf xs x"
  by (induction xs) (simp_all add: Let_def)

lemma indexOf_absent: "indexOf xs x = - 1 \<longleftrightarrow> x \<notin> set xs"
proof (induction xs)
  case Nil
  show ?case by simp
next
  case (Cons y ys)
  have "- 1 \<le> indexOf ys x" by (rule indexOf_lower)
  with Cons show ?case by (auto simp: Let_def)
qed

section \<open>Handler rewrite\<close>

text \<open>
  C9. \<open>getHandlerWrapper\<close> sends the runtime \<^verbatim>\<open>nodejs12.x\<close>, whatever the handler, to
  \<^verbatim>\<open>newrelic-lambda-wrapper.handler\<close> and the runtime \<^verbatim>\<open>python3.7\<close> to
  \<^verbatim>\<open>newrelic_lambda_wrapper.handler\<close>. A runtime that is none of the three node
  runtimes the function lists and does not contain \<^verbatim>\<open>python\<close> gets its handler back
  unchanged.
\<close>

theorem getHandlerWrapper_families:
  "getHandlerWrapper sls ''nodejs12.x'' h = JStr ''newrelic-lambda-wrapper.handler''
   \<and> getHandlerWrapper sls ''python3.7'' h = JStr ''newrelic_lambda_wrapper.handler''
   \<and> (rt \<notin> set [''nodejs8.10'', ''nodejs10.x'', ''nodejs12.x''] \<and> \<not> str_includes ''python'' rt
        \<longrightarrow> getHandlerWrapper sls rt h = h)"
proof -
  have node: "getHandlerWrapper sls ''nodejs12.x'' h = JStr ''newrelic-lambda-wrapper.handler''"
    by (simp add: getHandlerWrapper_def)
  have python: "getHandlerWrapper sls ''python3.7'' h = JStr ''newrelic_lambda_wrapper.handler''"
    by (simp add: getHandlerWrapper_def)
  have other: "getHandlerWrapper sls rt h = h"
    if "rt \<notin> set [''nodejs8.10'', ''nodejs10.x'', ''nodejs12.x'']" "\<not> str_includes ''python'' rt"
  proof -
    from that(1) have "indexOf [''nodejs8.10'', ''nodejs10.x'', ''nodejs12.x''] rt = - 1"
      by (rule iffD2 [OF indexOf_absent])
    moreover from that(1) have "rt \<noteq> ''nodejs10.x''" by simp
    ultimately show ?thesis using that(2) by (simp add: getHandlerWrapper_def)
  qed
  from node python other show ?thesis by blast
qed

theorem getHandlerWrapper_families_witness:
  "''ruby2.5'' \<notin> set [''nodejs8.10'', ''nodejs10.x'', ''nodejs12.x'']
   \<and> \<not> str_includes ''python'' ''ruby2.5''
   \<and> getHandlerWrapper sample_service ''nodejs12.x'' (JStr ''index.handler'')
       = JStr ''newrelic-lambda-wrapper.handler''
   \<and> getHandlerWrapper sample_service ''python3.7'' (JStr ''index.handler'')
       = JStr ''newrelic_lambda_wrapper.handler''
   \<and> getHandlerWrapper sample_service ''ruby2.5'' (JStr ''index.handler'') = JStr ''index.handler''"
  using getHandlerWrapper_families [of sample_service "JStr ''index.handler''" "''ruby2.5''"]
  by simp

section \<open>Skipping unsupported runtimes\<close>

text \<open>
  C7. When the runtime of a function (its own, or the provider's when it has none) is
  not one of the six supported runtime strings, \<open>addLayer\<close> ends at one of its early
  returns, after logging the reason, and the definition is what it was: layers,
  handler, environment and packaging keep their values.
\<close>

theorem addLayer_unsupported_runtime:
  assumes "effective_runtime sls fd \<notin> JStr ` set supported_runtimes"
  shows "\<exists>m. addLayer X sls fn fd = (Skipped m, [AddingLayer fn, m], fd)"
proof (cases "effective_runtime sls fd")
  case (JStr r)
  with assms have "r \<notin> set supported_runtimes" by auto
  then have "indexOf supported_runtimes r = - 1" by (rule iffD2 [OF indexOf_absent])
  with JStr show ?thesis
    by (simp add: addLayer_def Let_def split: option.split)
qed (simp_all add: addLayer_def Let_def split: option.split)

theorem addLayer_unsupported_runtime_witness:
  "effective_runtime sample_service (sample_function\<lparr>runtime := JStr ''ruby2.5''\<rparr>)
     \<notin> JStr ` set supported_runtimes
   \<and> (\<exists>m. addLayer offline sample_service ''hello'' (sample_function\<lparr>runtime := JStr ''ruby2.5''\<rparr>)
          = (Skipped m, [AddingLayer ''hello'', m], sample_function\<lparr>runtime := JStr ''ruby2.5''\<rparr>))"
proof -
  have h: "effective_runtime sample_service (sample_function\<lparr>runtime := JStr ''ruby2.5''\<rparr>)
     \<notin> JStr ` set supported_runtimes"
    by (simp add: effective_runtime_def sample_function_def supported_runtimes_def)
  from h addLayer_unsupported_runtime [OF h, of offline "''hello''"] show ?thesis by blast
qed

section \<open>Facts about the planner\<close>

lemma obj_get_obj_set: "obj_get (obj_set e k v) k' = (if k' = k then v else obj_get e k')"
  by (induction e) auto

lemma obj_get_keep_or:
  "obj_get (keep_or e k d) k' =
     (if k' = k then (if truthy (obj_get e k) then obj_get e k else d) else obj_get e k')"
  by (simp add: keep_or_def obj_get_obj_set)

lemmas sample_defs = sample_service_def sample_config_def sample_function_def offline_def

lemma sample_run:
  "addLayer offline sample_service ''hello'' sample_function
     = (Instrumented, [AddingLayer ''hello''], sample_instrumented)"
  by code_simp

lemma sample_second_run:
  "addLayer offline sample_service ''hello'' sample_instrumented
     = (Instrumented, [AddingLayer ''hello'', AlreadySpecifiesLayer ''hello''],
        sample_instrumented
          \<lparr>environment := Some
             [(''NEW_RELIC_LAMBDA_HANDLER'', JStr ''newrelic-lambda-wrapper.handler''),
              (''NEW_RELIC_LOG'', JStr ''stdout''),
              (''NEW_RELIC_LOG_LEVEL'', JStr ''info''),
              (''NEW_RELIC_NO_CONFIG_FILE'', JStr ''true''),
              (''NEW_RELIC_APP_NAME'', JStr ''svc-dev-hello''),
              (''NEW_RELIC_ACCOUNT_ID'', JStr ''12345''),
              (''NEW_RELIC_TRUSTED_ACCOUNT_KEY'', JStr ''12345''),
              (''NEW_RELIC_SERVERLESS_MODE_ENABLED'', JUndefined)],
           package := Some \<lparr>pkg_exclude = Some [JStr ''!newrelic-lambda-wrapper.handler'',
                                              JStr ''!newrelic-lambda-wrapper.handler'']\<rparr>\<rparr>)"
  by code_simp

text \<open>What a call of \<open>addLayer\<close> that reaches the end of the function went through.\<close>

lemma addLayer_Instrumented:
  assumes "addLayer X sls fn fd = (Instrumented, lg, fd')"
  obtains rg r arn lg' where "region sls = Some rg" "rg \<noteq> []"
    "truthy (accountId (config sls)) \<or> truthy (env_value fd ''NEW_RELIC_ACCOUNT_ID'')"
    "effective_runtime sls fd = JStr r" "r \<in> set supported_runtimes"
    "\<not> (case exclude (config sls) of
           JUndefined \<Rightarrow> False | JArr xs \<Rightarrow> indexOf xs (JStr fn) \<noteq> - 1 | _ \<Rightarrow> False)"
    "resolve_layerArn X sls r rg = Inr arn"
    "attach X sls fn fd r (case environment fd of None \<Rightarrow> [] | Some e \<Rightarrow> e)
       (case layers fd of None \<Rightarrow> [] | Some l \<Rightarrow> l)
       (case package fd of None \<Rightarrow> \<lparr>pkg_exclude = None\<rparr> | Some p \<Rightarrow> p) arn
     = (Instrumented, lg', fd')"
    "lg = AddingLayer fn # lg'"
proof -
  from assms obtain rg where rg: "region sls = Some rg" "rg \<noteq> []"
    by (cases "region sls") (auto simp: addLayer_def split: if_splits)
  from assms rg
  have acc: "truthy (accountId (config sls)) \<or> truthy (env_value fd ''NEW_RELIC_ACCOUNT_ID'')"
    by (auto simp: addLayer_def Let_def env_value_def split: if_splits)
  from assms rg acc obtain r where r: "effective_runtime sls fd = JStr r"
    by (cases "effective_runtime sls fd")
       (auto simp: addLayer_def Let_def env_value_def split: if_splits)
  from assms rg acc r have sup: "indexOf supported_runtimes r \<noteq> - 1"
    by (auto simp: addLayer_def Let_def env_value_def split: if_splits)
  then have sup': "r \<in> set supported_runtimes" by (simp add: indexOf_absent)
  from assms rg acc r sup
  have excl: "\<not> (case exclude (config sls) of
           JUndefined \<Rightarrow> False | JArr xs \<Rightarrow> indexOf xs (JStr fn) \<noteq> - 1 | _ \<Rightarrow> False)"
    by (auto simp: addLayer_def Let_def env_value_def split: if_splits)
  from assms rg acc r sup excl obtain arn where arn: "resolve_layerArn X sls r rg = Inr arn"
    by (cases "resolve_layerArn X sls r rg")
       (auto simp: addLayer_def Let_def env_value_def split: if_splits)
  from assms rg acc r sup excl arn obtain lg' where
    "attach X sls fn fd r (case environment fd of None \<Rightarrow> [] | Some e \<Rightarrow> e)
       (case layers fd of None \<Rightarrow> [] | Some l \<Rightarrow> l)
       (case package fd of None \<Rightarrow> \<lparr>pkg_exclude = None\<rparr> | Some p \<Rightarrow> p) arn
     = (Instrumented, lg', fd')"
    "lg = AddingLayer fn # lg'"
    by (auto simp: addLayer_def Let_def env_value_def split: if_splits prod.splits)
  with rg acc r sup' excl arn show thesis using that by blast
qed

lemma attach_Instrumented_environment:
  assumes "attach X sls fn fd r env lys pkg arn = (Instrumented, lg, fd')"
  shows "environment fd' = Some (set_environment sls fn fd env)"
  using assms by (auto simp: attach_def Let_def split: sum.splits if_splits)

lemma set_environment_serverless_mode:
  "obj_get (set_environment sls fn fd env) ''NEW_RELIC_SERVERLESS_MODE_ENABLED''
     = obj_get env ''NEW_RELIC_SERVERLESS_MODE_ENABLED''"
  by (simp add: set_environment_def Let_def obj_get_obj_set obj_get_keep_or)

lemma set_environment_ignores_serverlessModeEnabled:
  "set_environment (sls\<lparr>config := (config sls)\<lparr>serverlessModeEnabled := v\<rparr>\<rparr>) fn fd env
     = set_environment sls fn fd env"
  by (simp add: set_environment_def Let_def)

lemma attach_ignores_serverlessModeEnabled:
  "attach X (sls\<lparr>config := (config sls)\<lparr>serverlessModeEnabled := v\<rparr>\<rparr>) fn fd r env lys pkg arn
     = attach X sls fn fd r env lys pkg arn"
  by (simp add: attach_def getHandlerWrapper_def set_environment_ignores_serverlessModeEnabled
        Let_def cong: sum.case_cong if_cong)

lemma addLayer_ignores_serverlessModeEnabled:
  "addLayer X (sls\<lparr>config := (config sls)\<lparr>serverlessModeEnabled := v\<rparr>\<rparr>) fn fd
     = addLayer X sls fn fd"
proof -
  have "effective_runtime (sls\<lparr>config := (config sls)\<lparr>serverlessModeEnabled := v\<rparr>\<rparr>) fd
          = effective_runtime sls fd"
    by (simp add: effective_runtime_def)
  moreover
  have "resolve_layerArn X (sls\<lparr>config := (config sls)\<lparr>serverlessModeEnabled := v\<rparr>\<rparr>)
          = resolve_layerArn X sls"
    by (simp add: resolve_layerArn_def fun_eq_iff)
  ultimately show ?thesis
    by (simp add: addLayer_def attach_ignores_serverlessModeEnabled Let_def
          cong: option.case_cong if_cong jsval.case_cong sum.case_cong)
qed

section \<open>The serverless-mode variable\<close>

text \<open>
  C5, as stated: every run of the planner that is not skipped assigns \<^verbatim>\<open>"true"\<close> to
  \<^verbatim>\<open>NEW_RELIC_SERVERLESS_MODE_ENABLED\<close>. It does not. The condition of the assignment
  is the string literal \<^verbatim>\<open>"true"\<close>, so the branch taken is always the first one, which
  is the value the variable had before: for the sample function, which has no
  environment, the variable is \<^verbatim>\<open>undefined\<close> after the run, although the configuration
  sets \<^verbatim>\<open>serverlessModeEnabled\<close> to \<^verbatim>\<open>true\<close>.
\<close>

theorem serverless_mode_counterexample:
  "fst (addLayer offline sample_service ''hello'' sample_function) = Instrumented
   \<and> serverlessModeEnabled (config sample_service) = JBool True
   \<and> env_value (snd (snd (addLayer offline sample_service ''hello'' sample_function)))
        ''NEW_RELIC_SERVERLESS_MODE_ENABLED'' \<noteq> JStr ''true''"
  by (simp add: sample_run) (simp add: sample_instrumented_def env_value_def sample_defs)

text \<open>
  C5, amended: in every run of the planner that is not skipped, the variable
  \<^verbatim>\<open>NEW_RELIC_SERVERLESS_MODE_ENABLED\<close> has after the run the value it had before
  (\<^verbatim>\<open>undefined\<close> when it was absent), and the configured \<^verbatim>\<open>serverlessModeEnabled\<close> has no
  influence on the run: with any other value in its place the run ends the same way,
  logs the same and leaves the same definition.
\<close>

theorem addLayer_serverless_mode:
  assumes "addLayer X sls fn fd = (Instrumented, lg, fd')"
  shows "env_value fd' ''NEW_RELIC_SERVERLESS_MODE_ENABLED''
           = env_value fd ''NEW_RELIC_SERVERLESS_MODE_ENABLED''
         \<and> addLayer X (sls\<lparr>config := (config sls)\<lparr>serverlessModeEnabled := v\<rparr>\<rparr>) fn fd
           = (Instrumented, lg, fd')"
proof -
  from assms obtain r arn lg' where
    "attach X sls fn fd r (case environment fd of None \<Rightarrow> [] | Some e \<Rightarrow> e)
       (case layers fd of None \<Rightarrow> [] | Some l \<Rightarrow> l)
       (case package fd of None \<Rightarrow> \<lparr>pkg_exclude = None\<rparr> | Some p \<Rightarrow> p) arn
     = (Instrumented, lg', fd')"
    by (rule addLayer_Instrumented)
  then have "environment fd'
      = Some (set_environment sls fn fd (case environment fd of None \<Rightarrow> [] | Some e \<Rightarrow> e))"
    by (rule attach_Instrumented_environment)
  then have "env_value fd' ''NEW_RELIC_SERVERLESS_MODE_ENABLED''
           = env_value fd ''NEW_RELIC_SERVERLESS_MODE_ENABLED''"
    by (simp add: env_value_def set_environment_serverless_mode)
  with assms show ?thesis by (simp add: addLayer_ignores_serverlessModeEnabled)
qed

theorem addLayer_serverless_mode_witness:
  "addLayer offline sample_service ''hello'' sample_function
     = (Instrumented, [AddingLayer ''hello''], sample_instrumented)
   \<and> env_value sample_instrumented ''NEW_RELIC_SERVERLESS_MODE_ENABLED''
       = env_value sample_function ''NEW_RELIC_SERVERLESS_MODE_ENABLED''
   \<and> addLayer offline
        (sample_service\<lparr>config := (config sample_service)\<lparr>serverlessModeEnabled := JBool False\<rparr>\<rparr>)
        ''hello'' sample_function
       = (Instrumented, [AddingLayer ''hello''], sample_instrumented)"
proof -
  have h: "addLayer offline sample_service ''hello'' sample_function
     = (Instrumented, [AddingLayer ''hello''], sample_instrumented)"
    by (rule sample_run)
  from h addLayer_serverless_mode [OF h, of "JBool False"] show ?thesis by blast
qed

section \<open>The plugin order check\<close>

text \<open>
  C4, as stated: when \<^verbatim>\<open>serverless-webpack\<close> comes after this plugin in the plugin
  list, \<open>run\<close> only warns and still processes every function. It does not: the sample
  service lists the plugin before \<^verbatim>\<open>serverless-webpack\<close> and has a function that
  \<open>addLayer\<close> would change, and \<open>run\<close> leaves its functions as they are without calling
  \<open>addLayer\<close>.
\<close>

theorem run_plugin_order_counterexample:
  "indexOf (plugins sample_service) (JStr ''serverless-webpack'')
     > indexOf (plugins sample_service) (JStr ''serverless-newrelic-layers'')
   \<and> (''hello'', sample_function) \<in> set (funcs sample_service)
   \<and> snd (snd (addLayer offline sample_service ''hello'' sample_function)) \<noteq> sample_function
   \<and> funcs (snd (snd (run offline sample_service))) = funcs sample_service
   \<and> AddingLayer ''hello'' \<notin> set (fst (snd (run offline sample_service)))"
proof -
  have "snd (snd (addLayer offline sample_service ''hello'' sample_function)) \<noteq> sample_function"
    by (simp add: sample_run) (simp add: sample_instrumented_def sample_function_def)
  moreover have "run offline sample_service =
       (None, [PluginsList (plugins sample_service), PluginOrderSkipping], sample_service)"
    by (simp add: run_def sample_service_def offline_def)
  moreover have "(''hello'', sample_function) \<in> set (funcs sample_service)"
    by (simp add: sample_service_def)
  moreover have "indexOf (plugins sample_service) (JStr ''serverless-webpack'')
     > indexOf (plugins sample_service) (JStr ''serverless-newrelic-layers'')"
    by (simp add: sample_service_def)
  ultimately show ?thesis by simp
qed

text \<open>
  C4, amended: when the index of \<^verbatim>\<open>serverless-webpack\<close> in the plugin list is greater
  than the index of \<^verbatim>\<open>serverless-newrelic-layers\<close> (\<open>-1\<close> for a name that is not
  listed), \<open>run\<close> logs its message and returns without processing any function: the
  service is unchanged, and the messages are the plugin list and the skip message (or
  the version message alone, when the framework is older than 1.34.0).
\<close>

theorem run_plugin_order:
  assumes "indexOf (plugins sls) (JStr ''serverless-webpack'')
             > indexOf (plugins sls) (JStr ''serverless-newrelic-layers'')"
  shows "run X sls =
           (None,
            (if semver_lt X (version sls) ''1.34.0'' then [VersionUnsupported (version sls)]
             else [PluginsList (plugins sls), PluginOrderSkipping]),
            sls)"
  using assms by (simp add: run_def)

theorem run_plugin_order_witness:
  "indexOf (plugins sample_service) (JStr ''serverless-webpack'')
     > indexOf (plugins sample_service) (JStr ''serverless-newrelic-layers'')
   \<and> run offline sample_service =
       (None, [PluginsList (plugins sample_service), PluginOrderSkipping], sample_service)"
proof -
  have h: "indexOf (plugins sample_service) (JStr ''serverless-webpack'')
     > indexOf (plugins sample_service) (JStr ''serverless-newrelic-layers'')"
    by (simp add: sample_service_def)
  have "\<not> semver_lt offline (version sample_service) ''1.34.0''"
    by (simp add: offline_def)
  with h run_plugin_order [OF h, of offline] show ?thesis by simp
qed

section \<open>The layer ARN resolver\<close>





section \<open>Facts about traces\<close>

lemma filterE_total:
  assumes "\<And>x. x \<in> set xs \<Longrightarrow> p x = Inr (q x)"
  shows "filterE p xs = Inr (filter q xs)"
  using assms by (induction xs) simp_all

lemma issued_append: "issued (es @ fs) = issued es @ issued fs"
  by (induction es rule: issued.induct) simp_all

lemma at_call_catch_log: "at_call (catch_log p) = at_call p"
  by (simp add: catch_log_def split: sum.split error.split)

lemma issued_afterwards_catch_log: "issued (afterwards (catch_log p)) = issued (afterwards p)"
  by (simp add: catch_log_def issued_append split: sum.split error.split)

lemma issued_events_catch_log: "issued (events (catch_log p)) = issued (events p)"
  by (simp add: events_def issued_append at_call_catch_log issued_afterwards_catch_log)

lemma issued_events_request: "issued (events (request P rq)) = [rq]"
  by (simp add: events_def request_def)

lemma issued_events_then:
  "result p = Inr v \<Longrightarrow>
     issued (events (then_promise p f)) = issued (events p) @ issued (events (f v))"
  by (simp add: then_promise_def events_def issued_append Let_def)

lemma issued_events_logging_first: "issued (events (logging_first m p)) = issued (events p)"
  by (simp add: logging_first_def events_def)

lemma issued_events_remove:
  "issued (events (removeSubscriptionFilter P fn))
     = [DeleteSubscriptionFilter ''NewRelicLogStreaming'' (logGroupName fn)]"
  by (simp add: removeSubscriptionFilter_def issued_events_catch_log issued_events_request)

section \<open>Reconciling a log group without the filter\<close>

text \<open>
  The last stage of a run: when the provider answers the describe request with an array
  of filter objects none of which is named \<^verbatim>\<open>NewRelicLogStreaming\<close>, the requests
  issued by \<open>describeSubscriptionFilters\<close> are the describe request and one put request.
\<close>

lemma describe_without_reserved_filter:
  assumes "P (DescribeSubscriptionFilters (logGroupName fn)) = Inr (JArr fs)"
      and "\<forall>f \<in> set fs. \<exists>kvs. f = JObj kvs
             \<and> obj_get kvs ''filterName'' \<noteq> JStr ''NewRelicLogStreaming''"
  shows "issued (events (describeSubscriptionFilters P fn arn)) =
           [DescribeSubscriptionFilters (logGroupName fn),
            PutSubscriptionFilter arn ''NewRelicLogStreaming'' ''NR_LAMBDA_MONITORING''
              (logGroupName fn)]"
proof -
  have "filterE (\<lambda>f. case read_prop f ''filterName'' of
                       Inl e \<Rightarrow> Inl e
                     | Inr n \<Rightarrow> Inr (n = JStr ''NewRelicLogStreaming'')) fs
          = Inr (filter (\<lambda>f. False) fs)"
    using assms(2) by (intro filterE_total) (auto simp: read_prop_def js_prop_def)
  then have "on_described P fn arn (JArr fs) = addSubscriptionFilter P fn arn"
    by (simp add: on_described_def)
  moreover
  have "result (request P (DescribeSubscriptionFilters (logGroupName fn))) = Inr (JArr fs)"
    using assms(1) by (simp add: request_def)
  ultimately show ?thesis
    by (simp add: describeSubscriptionFilters_def issued_events_catch_log issued_events_then
          issued_events_request addSubscriptionFilter_def)
qed

text \<open>
  C6, as stated: every reconciliation run on a function whose log group has no filter
  with the reserved name issues exactly one put request. Not every run does: the run
  gives up, by design, when one of its lookups fails. With a provider that has no
  function \<^verbatim>\<open>newrelic-log-ingestion\<close> the run issues the two lookups and nothing else,
  although the log group has no filter.
\<close>

theorem ensureLogStreamFilter_counterexample:
  "provider_without_ingestion (DescribeSubscriptionFilters (logGroupName (Some ''svc-dev-hello'')))
     = Inr (JArr [])
   \<and> events (ensureLogStreamFilter provider_without_ingestion (Some ''svc-dev-hello'')) =
       [Issued (GetFunction (Some ''svc-dev-hello'')),
        Settled (GetFunction (Some ''svc-dev-hello'')),
        Issued (GetFunction (Some ''newrelic-log-ingestion'')),
        Settled (GetFunction (Some ''newrelic-log-ingestion'')),
        Logged (ProviderMessage ''Function not found'')]"
  by code_simp

text \<open>
  C6, amended: a reconciliation run \<open>ensureLogStreamFilter\<close> in which the provider
  answers the lookup of the function, answers the lookup of \<^verbatim>\<open>newrelic-log-ingestion\<close>
  with a value whose \<^verbatim>\<open>Configuration.FunctionArn\<close> can be read, and answers the describe
  request with an array of filter objects none of which is named
  \<^verbatim>\<open>NewRelicLogStreaming\<close> (the empty array included), issues the two lookups, the
  describe request and exactly one put request, and no other request; the put request
  carries the filter name \<^verbatim>\<open>NewRelicLogStreaming\<close>, the filter pattern
  \<^verbatim>\<open>NR_LAMBDA_MONITORING\<close>, the log group of the function and the ARN that was read.
\<close>

theorem ensureLogStreamFilter_adds_filter:
  assumes fetch: "P (GetFunction fn) = Inr found"
      and ingestion: "P (GetFunction (Some ''newrelic-log-ingestion'')) = Inr res"
      and conf: "read_prop res ''Configuration'' = Inr c"
      and dest: "read_prop c ''FunctionArn'' = Inr arn"
      and described: "P (DescribeSubscriptionFilters (logGroupName fn)) = Inr (JArr fs)"
      and none: "\<forall>f \<in> set fs. \<exists>kvs. f = JObj kvs
             \<and> obj_get kvs ''filterName'' \<noteq> JStr ''NewRelicLogStreaming''"
  shows "issued (events (ensureLogStreamFilter P fn)) =
           [GetFunction fn,
            GetFunction (Some ''newrelic-log-ingestion''),
            DescribeSubscriptionFilters (logGroupName fn),
            PutSubscriptionFilter arn ''NewRelicLogStreaming'' ''NR_LAMBDA_MONITORING''
              (logGroupName fn)]"
proof -
  have last: "issued (events (describeSubscriptionFilters P fn arn)) =
           [DescribeSubscriptionFilters (logGroupName fn),
            PutSubscriptionFilter arn ''NewRelicLogStreaming'' ''NR_LAMBDA_MONITORING''
              (logGroupName fn)]"
    using described none by (rule describe_without_reserved_filter)
  have "result (request P (GetFunction (Some ''newrelic-log-ingestion''))) = Inr res"
    using ingestion by (simp add: request_def)
  then have middle: "issued (events (getDestinationArn P fn)) =
           GetFunction (Some ''newrelic-log-ingestion'')
             # issued (events (describeSubscriptionFilters P fn arn))"
    by (simp add: getDestinationArn_def issued_events_catch_log issued_events_then
          issued_events_request conf dest)
  have "result (request P (GetFunction fn)) = Inr found"
    using fetch by (simp add: request_def)
  then have "issued (events (ensureLogStreamFilter P fn)) =
           GetFunction fn # issued (events (getDestinationArn P fn))"
    by (simp add: ensureLogStreamFilter_def issued_events_catch_log issued_events_then
          issued_events_request)
  with middle last show ?thesis by simp
qed

theorem ensureLogStreamFilter_adds_filter_witness:
  "provider_with (JArr [JObj [(''filterName'', JStr ''other'')]]) (GetFunction (Some ''svc-dev-hello''))
     = Inr (JObj [(''Configuration'', JObj [(''FunctionArn'', JStr ''arn:ingest'')])])
   \<and> read_prop (JObj [(''Configuration'', JObj [(''FunctionArn'', JStr ''arn:ingest'')])])
        ''Configuration'' = Inr (JObj [(''FunctionArn'', JStr ''arn:ingest'')])
   \<and> read_prop (JObj [(''FunctionArn'', JStr ''arn:ingest'')]) ''FunctionArn''
       = Inr (JStr ''arn:ingest'')
   \<and> provider_with (JArr [JObj [(''filterName'', JStr ''other'')]])
        (DescribeSubscriptionFilters (logGroupName (Some ''svc-dev-hello'')))
       = Inr (JArr [JObj [(''filterName'', JStr ''other'')]])
   \<and> issued (events (ensureLogStreamFilter
         (provider_with (JArr [JObj [(''filterName'', JStr ''other'')]]))
         (Some ''svc-dev-hello''))) =
       [GetFunction (Some ''svc-dev-hello''),
        GetFunction (Some ''newrelic-log-ingestion''),
        DescribeSubscriptionFilters ''/aws/lambda/svc-dev-hello'',
        PutSubscriptionFilter (JStr ''arn:ingest'') ''NewRelicLogStreaming'' ''NR_LAMBDA_MONITORING''
          ''/aws/lambda/svc-dev-hello'']"
proof -
  let ?P = "provider_with (JArr [JObj [(''filterName'', JStr ''other'')]])"
  let ?res = "JObj [(''Configuration'', JObj [(''FunctionArn'', JStr ''arn:ingest'')])]"
  have a: "?P (GetFunction (Some ''svc-dev-hello'')) = Inr ?res"
    by (simp add: provider_with_def)
  have b: "?P (GetFunction (Some ''newrelic-log-ingestion'')) = Inr ?res"
    by (simp add: provider_with_def)
  have c: "read_prop ?res ''Configuration'' = Inr (JObj [(''FunctionArn'', JStr ''arn:ingest'')])"
    by (simp add: read_prop_def js_prop_def)
  have d: "read_prop (JObj [(''FunctionArn'', JStr ''arn:ingest'')]) ''FunctionArn''
       = Inr (JStr ''arn:ingest'')"
    by (simp add: read_prop_def js_prop_def)
  have e: "?P (DescribeSubscriptionFilters (logGroupName (Some ''svc-dev-hello'')))
     = Inr (JArr [JObj [(''filterName'', JStr ''other'')]])"
    by (simp add: provider_with_def)
  have f: "\<forall>f \<in> set [JObj [(''filterName'', JStr ''other'')]].
         \<exists>kvs. f = JObj kvs \<and> obj_get kvs ''filterName'' \<noteq> JStr ''NewRelicLogStreaming''"
    by simp
  have g: "logGroupName (Some ''svc-dev-hello'') = ''/aws/lambda/svc-dev-hello''"
    by (simp add: logGroupName_def)
  from ensureLogStreamFilter_adds_filter
    [of ?P "Some ''svc-dev-hello''" ?res ?res "JObj [(''FunctionArn'', JStr ''arn:ingest'')]"
        "JStr ''arn:ingest''" "[JObj [(''filterName'', JStr ''other'')]]"]
    a b c d e f
  have "issued (events (ensureLogStreamFilter ?P (Some ''svc-dev-hello''))) =
       [GetFunction (Some ''svc-dev-hello''),
        GetFunction (Some ''newrelic-log-ingestion''),
        DescribeSubscriptionFilters ''/aws/lambda/svc-dev-hello'',
        PutSubscriptionFilter (JStr ''arn:ingest'') ''NewRelicLogStreaming'' ''NR_LAMBDA_MONITORING''
          ''/aws/lambda/svc-dev-hello'']"
    unfolding g by blast
  with a c d e show ?thesis by blast
qed

section \<open>Replacing a stale filter\<close>

text \<open>
  Whatever the provider does: when one filter of the answer carries the reserved name,
  and its pattern is not the expected one, the callback that handles the answer issues
  the delete request and then the put request before it returns, so before the answer
  to either can be delivered.
\<close>

lemma on_described_one_stale:
  assumes objs: "\<forall>g \<in> set fs. \<exists>kvs. g = JObj kvs"
      and one: "filter (\<lambda>g. js_prop g ''filterName'' = JStr ''NewRelicLogStreaming'') fs = [f]"
      and stale: "js_prop f ''filterPattern'' \<noteq> JStr ''NR_LAMBDA_MONITORING''"
  shows "at_call (on_described P fn arn (JArr fs)) =
           [Issued (DeleteSubscriptionFilter ''NewRelicLogStreaming'' (logGroupName fn)),
            Issued (PutSubscriptionFilter arn ''NewRelicLogStreaming'' ''NR_LAMBDA_MONITORING''
                      (logGroupName fn))]"
proof -
  have existing: "filterE (\<lambda>f. case read_prop f ''filterName'' of
                       Inl e \<Rightarrow> Inl e
                     | Inr n \<Rightarrow> Inr (n = JStr ''NewRelicLogStreaming'')) fs
          = Inr (filter (\<lambda>g. js_prop g ''filterName'' = JStr ''NewRelicLogStreaming'') fs)"
    using objs by (intro filterE_total) (auto simp: read_prop_def)
  have "f \<in> set (filter (\<lambda>g. js_prop g ''filterName'' = JStr ''NewRelicLogStreaming'') fs)"
    by (simp only: one) simp
  then have "f \<in> set fs" by simp
  with objs obtain kvs where "f = JObj kvs" by blast
  with stale
  have "filterE (\<lambda>f. case read_prop f ''filterPattern'' of
                        Inl e \<Rightarrow> Inl e
                      | Inr pat \<Rightarrow> Inr (pat \<noteq> JStr ''NR_LAMBDA_MONITORING'')) [f] = Inr [f]"
    by (simp add: read_prop_def)
  with existing one show ?thesis
    by (simp add: on_described_def removeSubscriptionFilter_def addSubscriptionFilter_def
          at_call_catch_log request_def)
qed

text \<open>
  C2 asks that for one filter named \<^verbatim>\<open>NewRelicLogStreaming\<close> with another pattern one
  delete and one put are issued, and that the delete completes before the put is
  issued. The trace of \<open>describeSubscriptionFilters\<close> for one filter with the pattern
  \<^verbatim>\<open>OLD_PATTERN\<close>: one delete request and one put request are issued, the delete
  first, and the put is issued before the delete has settled.
\<close>

theorem stale_filter_trace:
  "events (describeSubscriptionFilters (provider_with (JArr [stale_filter]))
       (Some ''svc-dev-hello'') (JStr ''arn:ingest'')) =
     [Issued (DescribeSubscriptionFilters ''/aws/lambda/svc-dev-hello''),
      Settled (DescribeSubscriptionFilters ''/aws/lambda/svc-dev-hello''),
      Issued (DeleteSubscriptionFilter ''NewRelicLogStreaming'' ''/aws/lambda/svc-dev-hello''),
      Issued (PutSubscriptionFilter (JStr ''arn:ingest'') ''NewRelicLogStreaming''
                ''NR_LAMBDA_MONITORING'' ''/aws/lambda/svc-dev-hello''),
      Settled (DeleteSubscriptionFilter ''NewRelicLogStreaming'' ''/aws/lambda/svc-dev-hello''),
      Settled (PutSubscriptionFilter (JStr ''arn:ingest'') ''NewRelicLogStreaming''
                ''NR_LAMBDA_MONITORING'' ''/aws/lambda/svc-dev-hello'')]"
  by (simp add: describeSubscriptionFilters_def on_described_def then_promise_def catch_log_def
        request_def events_def removeSubscriptionFilter_def addSubscriptionFilter_def
        provider_with_def stale_filter_def read_prop_def js_prop_def logGroupName_def Let_def)

section \<open>The drivers and the exclude list\<close>

text \<open>
  C10. For a function of the service, \<open>addLogStreamFilters\<close> starts one callback; when
  the key of the function is in the array \<^verbatim>\<open>config.exclude\<close> that callback returns at
  once: it logs nothing and issues no request. \<open>removeLogStreamFilters\<close> issues for the
  function exactly one request, the delete of the filter \<^verbatim>\<open>NewRelicLogStreaming\<close> on
  its log group, whether or not the function is excluded; the configuration has no
  influence on it.
\<close>

theorem log_filter_drivers:
  assumes "(k, fd) \<in> set (funcs sls)"
  shows "(\<exists>rs. addLogStreamFilters P sls = Inr rs \<and> map fst rs = map fst (funcs sls)
            \<and> (exclude (config sls) = JArr xs \<and> JStr k \<in> set xs
                 \<longrightarrow> (\<forall>p. (k, p) \<in> set rs \<longrightarrow> events p = [])))
         \<and> (\<exists>rs p. removeLogStreamFilters P sls = Inr rs \<and> (k, p) \<in> set rs
               \<and> issued (events p)
                   = [DeleteSubscriptionFilter ''NewRelicLogStreaming'' (logGroupName (name fd))])
         \<and> removeLogStreamFilters P (sls\<lparr>config := c\<rparr>) = removeLogStreamFilters P sls"
proof -
  from assms have ne: "funcs sls \<noteq> []" by auto
  then have getter: "functions_getter sls = Inr (funcs sls)"
    by (simp add: functions_getter_def)
  have add: "\<exists>rs. addLogStreamFilters P sls = Inr rs \<and> map fst rs = map fst (funcs sls)
            \<and> (exclude (config sls) = JArr xs \<and> JStr k \<in> set xs
                 \<longrightarrow> (\<forall>p. (k, p) \<in> set rs \<longrightarrow> events p = []))"
  proof (cases "exclude (config sls) = JArr xs \<and> JStr k \<in> set xs")
    case True
    then have "indexOf xs (JStr k) \<noteq> - 1" by (simp add: indexOf_absent)
    with True getter show ?thesis
      by (auto simp: addLogStreamFilters_def idle_def events_def)
  next
    case False
    with getter show ?thesis by (auto simp: addLogStreamFilters_def)
  qed
  let ?p = "logging_first (RemovingLogFilter k) (removeSubscriptionFilter P (name fd))"
  have "removeLogStreamFilters P sls =
          Inr (map (\<lambda>(funcName, funcDef).
                 (funcName, logging_first (RemovingLogFilter funcName)
                    (removeSubscriptionFilter P (name funcDef)))) (funcs sls))"
    using getter by (simp add: removeLogStreamFilters_def)
  moreover have "(k, ?p) \<in> set (map (\<lambda>(funcName, funcDef).
                 (funcName, logging_first (RemovingLogFilter funcName)
                    (removeSubscriptionFilter P (name funcDef)))) (funcs sls))"
    using assms by force
  moreover have "issued (events ?p)
       = [DeleteSubscriptionFilter ''NewRelicLogStreaming'' (logGroupName (name fd))]"
    by (simp add: issued_events_logging_first issued_events_remove)
  ultimately have remove: "\<exists>rs p. removeLogStreamFilters P sls = Inr rs \<and> (k, p) \<in> set rs
               \<and> issued (events p)
                   = [DeleteSubscriptionFilter ''NewRelicLogStreaming'' (logGroupName (name fd))]"
    by blast
  have "removeLogStreamFilters P (sls\<lparr>config := c\<rparr>) = removeLogStreamFilters P sls"
    by (simp add: removeLogStreamFilters_def functions_getter_def)
  with add remove show ?thesis by blast
qed

theorem log_filter_drivers_witness:
  "(''internal'', sample_function\<lparr>name := Some ''svc-dev-internal''\<rparr>) \<in> set (funcs sample_service)
   \<and> exclude (config sample_service) = JArr [JStr ''internal'']
   \<and> JStr ''internal'' \<in> set [JStr ''internal'']
   \<and> (\<exists>rs. addLogStreamFilters (provider_with (JArr [])) sample_service = Inr rs
         \<and> map fst rs = [''hello'', ''internal'']
         \<and> (\<forall>p. (''internal'', p) \<in> set rs \<longrightarrow> events p = []))
   \<and> (\<exists>rs p. removeLogStreamFilters (provider_with (JArr [])) sample_service = Inr rs
         \<and> (''internal'', p) \<in> set rs
         \<and> issued (events p)
             = [DeleteSubscriptionFilter ''NewRelicLogStreaming'' ''/aws/lambda/svc-dev-internal''])"
proof -
  have a: "(''internal'', sample_function\<lparr>name := Some ''svc-dev-internal''\<rparr>)
             \<in> set (funcs sample_service)"
    by (simp add: sample_service_def)
  have b: "exclude (config sample_service) = JArr [JStr ''internal'']"
    by (simp add: sample_service_def sample_config_def)
  have c: "logGroupName (name (sample_function\<lparr>name := Some ''svc-dev-internal''\<rparr>))
             = ''/aws/lambda/svc-dev-internal''"
    by (simp add: logGroupName_def)
  have d: "map fst (funcs sample_service) = [''hello'', ''internal'']"
    by (simp add: sample_service_def)
  from a b log_filter_drivers
    [OF a, of "provider_with (JArr [])" "[JStr ''internal'']" "config sample_service"]
  show ?thesis unfolding c d by simp
qed

section \<open>Layers that are already attached\<close>

lemma starts_with_refl: "starts_with p p"
  by (induction p) simp_all

lemma str_includes_refl: "str_includes p p"
  by (cases p) (simp_all add: starts_with_refl)

lemma String_match_literal:
  "regex_literal a \<Longrightarrow> String_match X s (JStr a) = Inr (str_includes a s)"
  by (simp add: String_match_def)

text \<open>The layers that match a literal ARN.\<close>

lemma newRelicLayers_literal:
  assumes "regex_literal a"
  shows "filterE (\<lambda>layer. case layer of JStr s \<Rightarrow> String_match X s (JStr a) | _ \<Rightarrow> Inr False) lys
           = Inr (filter (\<lambda>layer. case layer of JStr s \<Rightarrow> str_includes a s | _ \<Rightarrow> False) lys)"
  by (rule filterE_total) (simp add: String_match_literal [OF assms] split: jsval.split)

lemma attach_literal:
  assumes "regex_literal a"
  shows "attach X sls fn fd r env lys pkg (JStr a) =
           (Instrumented,
            (if filter (\<lambda>layer. case layer of JStr s \<Rightarrow> str_includes a s | _ \<Rightarrow> False) lys \<noteq> []
             then [AlreadySpecifiesLayer fn] else []),
            fd\<lparr>layers :=
                  (if filter (\<lambda>layer. case layer of JStr s \<Rightarrow> str_includes a s | _ \<Rightarrow> False) lys \<noteq> []
                   then layers fd
                   else Some (if prepend (config sls) = JBool True then JStr a # lys
                              else lys @ [JStr a])),
                environment := Some (set_environment sls fn fd env),
                handler := getHandlerWrapper sls r (handler fd),
                package := Some (updatePackageExcludes r pkg)\<rparr>)"
  by (simp add: attach_def newRelicLayers_literal [OF assms])

lemma present_layer_matches:
  assumes "JStr a \<in> set lys"
  shows "filter (\<lambda>layer. case layer of JStr s \<Rightarrow> str_includes a s | _ \<Rightarrow> False) lys \<noteq> []"
proof -
  have "case JStr a of JStr s \<Rightarrow> str_includes a s | _ \<Rightarrow> False"
    by (simp add: str_includes_refl)
  with assms show ?thesis unfolding filter_empty_conv by blast
qed

text \<open>
  C8, as stated: when the layers of a function already contain a string equal to the
  resolved layer ARN, a run of the planner that is not skipped adds no second copy. It
  can: \<^verbatim>\<open>layer.match(layerArn)\<close> reads the ARN as a regular expression, and the pattern
  \<^verbatim>\<open>arn:x:layer:a+b:1\<close> asks for \<^verbatim>\<open>a\<close> once or more and then \<^verbatim>\<open>b\<close>, which the string
  \<^verbatim>\<open>arn:x:layer:a+b:1\<close> itself does not contain. The layer is taken as absent and
  pushed a second time.
\<close>

theorem addLayer_existing_layer_counterexample:
  "resolve_layerArn offline_plus plus_service ''nodejs12.x'' ''us-east-1''
     = Inr (JStr ''arn:x:layer:a+b:1'')
   \<and> layers plus_function = Some [JStr ''arn:x:layer:a+b:1'']
   \<and> regexp offline_plus (JStr ''arn:x:layer:a+b:1'') ''arn:x:layer:a+b:1'' = Inr False
   \<and> regexp offline_plus (JStr ''arn:x:layer:a+b:1'') ''arn:x:layer:aab:1'' = Inr True
   \<and> fst (addLayer offline_plus plus_service ''hello'' plus_function) = Instrumented
   \<and> layers (snd (snd (addLayer offline_plus plus_service ''hello'' plus_function)))
       = Some [JStr ''arn:x:layer:a+b:1'', JStr ''arn:x:layer:a+b:1'']"
  by code_simp

text \<open>
  C8, amended: when the layers of a function already contain a string equal to the
  resolved layer ARN, and that ARN is a string without regular-expression
  metacharacters (as the layer ARNs of the provider are), a run of the planner leaves
  the layers as they are: no second copy is put in front or at the end.
\<close>

theorem addLayer_existing_layer:
  assumes "region sls = Some rg" and "effective_runtime sls fd = JStr r"
      and "resolve_layerArn X sls r rg = Inr (JStr a)" and "regex_literal a"
      and "layers fd = Some lys" and "JStr a \<in> set lys"
  shows "layers (snd (snd (addLayer X sls fn fd))) = Some lys"
proof -
  have "layers fd' = Some lys"
    if "attach X sls fn fd r env lys pkg (JStr a) = (out, lg, fd')" for env pkg out lg fd'
    using that
    by (auto simp: attach_literal [OF assms(4)] present_layer_matches [OF assms(6)] assms(5))
  then show ?thesis
    by (auto simp: addLayer_def assms(1-3,5) Let_def split: prod.split)
qed

theorem addLayer_existing_layer_witness:
  "region sample_service = Some ''us-east-1''
   \<and> effective_runtime sample_service sample_instrumented = JStr ''nodejs12.x''
   \<and> resolve_layerArn offline sample_service ''nodejs12.x'' ''us-east-1''
       = Inr (JStr ''arn:aws:lambda:us-east-1:554407330061:layer:MainlandLayer:9'')
   \<and> regex_literal ''arn:aws:lambda:us-east-1:554407330061:layer:MainlandLayer:9''
   \<and> layers sample_instrumented
       = Some [JStr ''arn:aws:lambda:us-east-1:554407330061:layer:MainlandLayer:9'']
   \<and> fst (addLayer offline sample_service ''hello'' sample_instrumented) = Instrumented
   \<and> layers (snd (snd (addLayer offline sample_service ''hello'' sample_instrumented)))
       = Some [JStr ''arn:aws:lambda:us-east-1:554407330061:layer:MainlandLayer:9'']"
proof -
  have a: "region sample_service = Some ''us-east-1''"
    by (simp add: sample_service_def)
  have b: "effective_runtime sample_service sample_instrumented = JStr ''nodejs12.x''"
    by (simp add: effective_runtime_def sample_instrumented_def)
  have c: "resolve_layerArn offline sample_service ''nodejs12.x'' ''us-east-1''
       = Inr (JStr ''arn:aws:lambda:us-east-1:554407330061:layer:MainlandLayer:9'')"
    by (simp add: resolve_layerArn_def sample_service_def sample_config_def)
  have d: "regex_literal ''arn:aws:lambda:us-east-1:554407330061:layer:MainlandLayer:9''"
    by (simp add: regex_literal_def metachars_def)
  have e: "layers sample_instrumented
       = Some [JStr ''arn:aws:lambda:us-east-1:554407330061:layer:MainlandLayer:9'']"
    by (simp add: sample_instrumented_def)
  have f: "JStr ''arn:aws:lambda:us-east-1:554407330061:layer:MainlandLayer:9''
       \<in> set [JStr ''arn:aws:lambda:us-east-1:554407330061:layer:MainlandLayer:9'']"
    by simp
  have g: "fst (addLayer offline sample_service ''hello'' sample_instrumented) = Instrumented"
    by (simp add: sample_second_run)
  from a b c d e g addLayer_existing_layer [OF a b c d e f, of "''hello''"]
  show ?thesis by simp
qed

section \<open>Running the planner twice\<close>

lemma set_environment_handler:
  "obj_get (set_environment sls fn fd env) ''NEW_RELIC_LAMBDA_HANDLER'' = handler fd"
  by (simp add: set_environment_def Let_def obj_get_obj_set obj_get_keep_or)

lemma set_environment_account:
  assumes "truthy (accountId (config sls)) \<or> truthy (obj_get env ''NEW_RELIC_ACCOUNT_ID'')"
  shows "truthy (obj_get (set_environment sls fn fd env) ''NEW_RELIC_ACCOUNT_ID'')"
  using assms by (auto simp: set_environment_def Let_def obj_get_obj_set obj_get_keep_or)

text \<open>
  The assignments other than the first keep a value that is set, and compute the same
  default again for one that is not.
\<close>

lemma set_environment_twice:
  assumes "name fd' = name fd" and "k \<noteq> ''NEW_RELIC_LAMBDA_HANDLER''"
  shows "obj_get (set_environment sls fn fd' (set_environment sls fn fd env)) k
           = obj_get (set_environment sls fn fd env) k"
  using assms by (simp add: set_environment_def Let_def obj_get_obj_set obj_get_keep_or)

lemma getHandlerWrapper_supported:
  assumes "r \<in> set supported_runtimes"
  shows "getHandlerWrapper sls r (getHandlerWrapper sls r h) = getHandlerWrapper sls r h"
  using assms by (auto simp: supported_runtimes_def getHandlerWrapper_def)

lemma excludes_updatePackageExcludes:
  "excludes (fd\<lparr>package := Some (updatePackageExcludes r p)\<rparr>) =
     (if str_includes ''nodejs'' r
      then (case pkg_exclude p of None \<Rightarrow> [] | Some xs \<Rightarrow> xs) @ [JStr ''!newrelic-lambda-wrapper.handler'']
      else (case pkg_exclude p of None \<Rightarrow> [] | Some xs \<Rightarrow> xs))"
  by (simp add: excludes_def updatePackageExcludes_def Let_def)

text \<open>
  C1, as stated: running the planner twice on a definition gives the same definition
  as running it once. It does not. The second run on the sample function, a
  \<^verbatim>\<open>nodejs12.x\<close> function with the handler \<^verbatim>\<open>index.handler\<close>, overwrites
  \<^verbatim>\<open>NEW_RELIC_LAMBDA_HANDLER\<close> with the wrapper handler that the first run has put in
  place of the original handler, and appends the packaging exclude entry a second time.
\<close>

theorem addLayer_twice_counterexample:
  "addLayer offline sample_service ''hello'' sample_function
     = (Instrumented, [AddingLayer ''hello''], sample_instrumented)
   \<and> fst (addLayer offline sample_service ''hello'' sample_instrumented) = Instrumented
   \<and> snd (snd (addLayer offline sample_service ''hello'' sample_instrumented))
       \<noteq> sample_instrumented
   \<and> env_value sample_instrumented ''NEW_RELIC_LAMBDA_HANDLER'' = JStr ''index.handler''
   \<and> env_value (snd (snd (addLayer offline sample_service ''hello'' sample_instrumented)))
        ''NEW_RELIC_LAMBDA_HANDLER'' = JStr ''newrelic-lambda-wrapper.handler''
   \<and> excludes sample_instrumented = [JStr ''!newrelic-lambda-wrapper.handler'']
   \<and> excludes (snd (snd (addLayer offline sample_service ''hello'' sample_instrumented)))
       = [JStr ''!newrelic-lambda-wrapper.handler'', JStr ''!newrelic-lambda-wrapper.handler'']"
  by (simp add: sample_run sample_second_run)
     (simp add: sample_instrumented_def env_value_def excludes_def)

text \<open>
  C1, amended: when a run of the planner on a definition is not skipped, with a
  resolved layer ARN that is a string without regular-expression metacharacters, a
  second run on the result is not skipped either and leaves the name, the runtime,
  the layers (no second layer entry) and the handler as the first run left them, and
  every environment variable except \<^verbatim>\<open>NEW_RELIC_LAMBDA_HANDLER\<close>. That variable is
  overwritten with the handler the first run left, which is the wrapper. For a
  runtime that does not contain \<^verbatim>\<open>nodejs\<close> the packaging is left as it was; for one
  that does, the exclude list gets the entry \<^verbatim>\<open>!newrelic-lambda-wrapper.handler\<close> once
  more.
\<close>

theorem addLayer_second_run:
  assumes run1: "addLayer X sls fn fd = (Instrumented, lg, fd1)"
      and rg: "region sls = Some rg" and r: "effective_runtime sls fd = JStr r"
      and arn: "resolve_layerArn X sls r rg = Inr (JStr a)" and lit: "regex_literal a"
  shows "\<exists>lg2 fd2. addLayer X sls fn fd1 = (Instrumented, lg2, fd2)
           \<and> name fd2 = name fd1 \<and> runtime fd2 = runtime fd1
           \<and> layers fd2 = layers fd1 \<and> handler fd2 = handler fd1
           \<and> (\<forall>k. k \<noteq> ''NEW_RELIC_LAMBDA_HANDLER'' \<longrightarrow> env_value fd2 k = env_value fd1 k)
           \<and> env_value fd2 ''NEW_RELIC_LAMBDA_HANDLER'' = handler fd1
           \<and> (if str_includes ''nodejs'' r
               then excludes fd2 = excludes fd1 @ [JStr ''!newrelic-lambda-wrapper.handler'']
               else package fd2 = package fd1)"
proof -
  let ?env = "case environment fd of None \<Rightarrow> [] | Some e \<Rightarrow> e"
  let ?lys = "case layers fd of None \<Rightarrow> [] | Some l \<Rightarrow> l"
  let ?pkg = "case package fd of None \<Rightarrow> \<lparr>pkg_exclude = None\<rparr> | Some p \<Rightarrow> p"
  let ?match = "\<lambda>layer. case layer of JStr s \<Rightarrow> str_includes a s | _ \<Rightarrow> False"
  let ?env1 = "set_environment sls fn fd ?env"
  let ?pkg1 = "updatePackageExcludes r ?pkg"
  let ?lys1 = "if filter ?match ?lys \<noteq> [] then ?lys
               else if prepend (config sls) = JBool True then JStr a # ?lys else ?lys @ [JStr a]"
  from run1 obtain rg' r' arn' lg' where first:
    "region sls = Some rg'" "rg' \<noteq> []"
    "truthy (accountId (config sls)) \<or> truthy (env_value fd ''NEW_RELIC_ACCOUNT_ID'')"
    "effective_runtime sls fd = JStr r'" "r' \<in> set supported_runtimes"
    "\<not> (case exclude (config sls) of
           JUndefined \<Rightarrow> False | JArr xs \<Rightarrow> indexOf xs (JStr fn) \<noteq> - 1 | _ \<Rightarrow> False)"
    "resolve_layerArn X sls r' rg' = Inr arn'"
    "attach X sls fn fd r' ?env ?lys ?pkg arn' = (Instrumented, lg', fd1)"
    by (rule addLayer_Instrumented)
  from first(1,4,7) rg r arn have same: "rg' = rg" "r' = r" "arn' = JStr a" by simp_all
  from first(8) have fd1: "fd1 = fd\<lparr>layers :=
                  (if filter ?match ?lys \<noteq> [] then layers fd
                   else Some (if prepend (config sls) = JBool True then JStr a # ?lys
                              else ?lys @ [JStr a])),
                environment := Some ?env1,
                handler := getHandlerWrapper sls r (handler fd),
                package := Some ?pkg1\<rparr>"
    unfolding same by (simp add: attach_literal [OF lit])
  have env1: "(case environment fd1 of None \<Rightarrow> [] | Some e \<Rightarrow> e) = ?env1"
    by (simp add: fd1)
  have lys1: "(case layers fd1 of None \<Rightarrow> [] | Some l \<Rightarrow> l) = ?lys1"
    by (simp add: fd1 split: option.split)
  have pkg1: "(case package fd1 of None \<Rightarrow> \<lparr>pkg_exclude = None\<rparr> | Some p \<Rightarrow> p) = ?pkg1"
    by (simp add: fd1)
  have matched: "filter ?match ?lys1 \<noteq> []"
  proof (cases "filter ?match ?lys \<noteq> []")
    case True
    then show ?thesis by simp
  next
    case False
    have "JStr a \<in> set ?lys1" using False by simp
    then show ?thesis by (rule present_layer_matches)
  qed
  have "effective_runtime sls fd1 = effective_runtime sls fd"
    by (simp add: effective_runtime_def fd1)
  with r have rt1: "effective_runtime sls fd1 = JStr r" by simp
  have acc1: "truthy (obj_get ?env1 ''NEW_RELIC_ACCOUNT_ID'')"
    using first(3) by (intro set_environment_account) (simp add: env_value_def)
  have sup: "indexOf supported_runtimes r \<noteq> - 1"
    using first(5) same by (simp add: indexOf_absent)
  let ?fd2 = "fd1\<lparr>environment := Some (set_environment sls fn fd1 ?env1),
                   handler := getHandlerWrapper sls r (handler fd1),
                   package := Some (updatePackageExcludes r ?pkg1)\<rparr>"
  have attach2: "attach X sls fn fd1 r ?env1 ?lys1 ?pkg1 (JStr a)
                   = (Instrumented, [AlreadySpecifiesLayer fn], ?fd2)"
    using matched by (simp add: attach_literal [OF lit])
  have run2: "addLayer X sls fn fd1
                = (Instrumented, [AddingLayer fn, AlreadySpecifiesLayer fn], ?fd2)"
    using first(2,6) same acc1 sup
    by (simp add: addLayer_def rg rt1 arn env1 lys1 pkg1 attach2 Let_def)
  have names: "name ?fd2 = name fd1 \<and> runtime ?fd2 = runtime fd1 \<and> layers ?fd2 = layers fd1"
    by simp
  have handlers: "handler ?fd2 = handler fd1"
    using first(5) same by (simp add: fd1 getHandlerWrapper_supported)
  have name1: "name fd1 = name fd" by (simp add: fd1)
  have others: "\<forall>k. k \<noteq> ''NEW_RELIC_LAMBDA_HANDLER'' \<longrightarrow> env_value ?fd2 k = env_value fd1 k"
    using set_environment_twice [OF name1] by (simp add: env_value_def env1)
  have overwritten: "env_value ?fd2 ''NEW_RELIC_LAMBDA_HANDLER'' = handler fd1"
    by (simp add: env_value_def set_environment_handler)
  have packaging: "if str_includes ''nodejs'' r
               then excludes ?fd2 = excludes fd1 @ [JStr ''!newrelic-lambda-wrapper.handler'']
               else package ?fd2 = package fd1"
    by (simp add: fd1 excludes_def updatePackageExcludes_def Let_def)
  from run2 names handlers others overwritten packaging show ?thesis by blast
qed

theorem addLayer_second_run_witness:
  "addLayer offline sample_service ''hello'' sample_function
     = (Instrumented, [AddingLayer ''hello''], sample_instrumented)
   \<and> region sample_service = Some ''us-east-1''
   \<and> effective_runtime sample_service sample_function = JStr ''nodejs12.x''
   \<and> resolve_layerArn offline sample_service ''nodejs12.x'' ''us-east-1''
       = Inr (JStr ''arn:aws:lambda:us-east-1:554407330061:layer:MainlandLayer:9'')
   \<and> regex_literal ''arn:aws:lambda:us-east-1:554407330061:layer:MainlandLayer:9''
   \<and> str_includes ''nodejs'' ''nodejs12.x''
   \<and> (\<exists>lg2 fd2. addLayer offline sample_service ''hello'' sample_instrumented
                    = (Instrumented, lg2, fd2)
         \<and> layers fd2 = layers sample_instrumented
         \<and> handler fd2 = handler sample_instrumented
         \<and> env_value fd2 ''NEW_RELIC_LAMBDA_HANDLER'' = handler sample_instrumented
         \<and> excludes fd2
             = excludes sample_instrumented @ [JStr ''!newrelic-lambda-wrapper.handler''])"
proof -
  have a: "addLayer offline sample_service ''hello'' sample_function
     = (Instrumented, [AddingLayer ''hello''], sample_instrumented)"
    by (rule sample_run)
  have b: "region sample_service = Some ''us-east-1''"
    by (simp add: sample_service_def)
  have c: "effective_runtime sample_service sample_function = JStr ''nodejs12.x''"
    by (simp add: effective_runtime_def sample_function_def)
  have d: "resolve_layerArn offline sample_service ''nodejs12.x'' ''us-east-1''
       = Inr (JStr ''arn:aws:lambda:us-east-1:554407330061:layer:MainlandLayer:9'')"
    by (simp add: resolve_layerArn_def sample_service_def sample_config_def)
  have e: "regex_literal ''arn:aws:lambda:us-east-1:554407330061:layer:MainlandLayer:9''"
    by (simp add: regex_literal_def metachars_def)
  have f: "str_includes ''nodejs'' ''nodejs12.x''" by simp
  from addLayer_second_run [OF a b c d e] f
  have "\<exists>lg2 fd2. addLayer offline sample_service ''hello'' sample_instrumented
                    = (Instrumented, lg2, fd2)
         \<and> layers fd2 = layers sample_instrumented
         \<and> handler fd2 = handler sample_instrumented
         \<and> env_value fd2 ''NEW_RELIC_LAMBDA_HANDLER'' = handler sample_instrumented
         \<and> excludes fd2
             = excludes sample_instrumented @ [JStr ''!newrelic-lambda-wrapper.handler'']"
    by (simp only: if_True) blast
  with a b c d e f show ?thesis by blast
qed

end
